theory Spec2Isabelle
  imports Complex_Main "HOL-Library.Char_ord" "HOL-Library.List_Lexorder" "HOL-Library.Multiset"
begin

section \<open>The H-1B dashboard's aggregation core (app.py)\<close>

text \<open>
  The script app.py is a linear sequence of pandas expressions. Each expression that
  carries domain logic is embedded here as a HOL function on a list of rows (a data
  frame is the list of its rows, in frame order). Conventions of the embedding:
  \<^item> the counts of the data set are integers (\<open>int\<close>, unbounded; the wrap-around of
    pandas' 64-bit sums is not modelled);
  \<^item> Year, Industry and Employer Name are present in every row; a row with a missing
    key, which pandas' groupby would drop, is outside the model;
  \<^item> labels are \<open>string\<close>s, compared and sorted by character code, as Python does;
  \<^item> Python's float division is the exact division of \<open>real\<close>;
  \<^item> a raised exception is an \<open>Inl\<close> value;
  \<^item> where pandas leaves the order of equal values to the sorting routine of the
    platform, the model sorts stably; no theorem below depends on the order of ties.
\<close>

subsection \<open>Rows and the derived totals (load_data)\<close>

record row =
  Year :: int
  Employer_Name :: string
  City :: string
  State :: string
  Industry :: string
  Initial_Approval :: int
  Initial_Denial :: int
  Continuing_Approval :: int
  Continuing_Denial :: int

text \<open>\<^verbatim>\<open>df["Total_Approvals"] = df["Initial_Approval"] + df["Continuing_Approval"]\<close> and
  the same for denials. City and State are the columns after lines 269-270, where a
  missing value has become the empty string.\<close>

definition Total_Approvals :: "row \<Rightarrow> int" where
  "Total_Approvals r = Initial_Approval r + Continuing_Approval r"

definition Total_Denials :: "row \<Rightarrow> int" where
  "Total_Denials r = Initial_Denial r + Continuing_Denial r"

datatype error = IndexError | KeyError | RegexError

subsection \<open>calculate_yoy_change\<close>

definition calculate_yoy_change :: "int \<Rightarrow> int \<Rightarrow> real" where
  "calculate_yoy_change current_year previous_year =
     (if previous_year = 0 then 0
      else (real_of_int (current_year - previous_year) / real_of_int previous_year) * 100)"

subsection \<open>The pandas operations the script uses\<close>

text \<open>\<^verbatim>\<open>df.groupby(key)[val].sum()\<close>: one entry per distinct key, keys ascending,
  each with the sum of \<open>val\<close> over the rows of that key.\<close>

definition groupby_sum :: "(row \<Rightarrow> 'k::linorder) \<Rightarrow> (row \<Rightarrow> int) \<Rightarrow> row list \<Rightarrow> ('k \<times> int) list" where
  "groupby_sum key val df =
     map (\<lambda>k. (k, sum_list (map val (filter (\<lambda>r. key r = k) df))))
         (sort (remdups (map key df)))"

text \<open>\<^verbatim>\<open>series.sort_values(ascending=False)\<close>: entries by descending value.\<close>

definition sort_values_desc :: "('k \<times> int) list \<Rightarrow> ('k \<times> int) list" where
  "sort_values_desc s = sort_key (\<lambda>kv. - snd kv) s"

text \<open>\<^verbatim>\<open>series.nlargest(n)\<close>: the first \<open>n\<close> entries by descending value (all of them when
  the series is shorter; none when \<open>n\<close> is 0).\<close>

definition nlargest :: "nat \<Rightarrow> ('k \<times> int) list \<Rightarrow> ('k \<times> int) list" where
  "nlargest n s = take n (sort_values_desc s)"

text \<open>A two-dimensional frame: row labels, column labels, and the cells row by row, each
  row listing its values in the order of \<open>columns\<close>.\<close>

record 'a frame =
  index :: "int list"
  columns :: "string list"
  cells :: "'a list list"

text \<open>\<^verbatim>\<open>df.pivot_table(values="Total_Approvals", index="Year", columns=col, aggfunc="sum")\<close>:
  a row per distinct year and a column per distinct label, both ascending; a cell is the
  sum over the rows of that year and label, and is missing (NaN, here \<open>None\<close>) when there
  is no such row.\<close>

definition pivot_cell :: "(row \<Rightarrow> string) \<Rightarrow> row list \<Rightarrow> int \<Rightarrow> string \<Rightarrow> int option" where
  "pivot_cell col df y c =
     (let grp = filter (\<lambda>r. Year r = y \<and> col r = c) df
      in if grp = [] then None else Some (sum_list (map Total_Approvals grp)))"

definition pivot_table :: "(row \<Rightarrow> string) \<Rightarrow> row list \<Rightarrow> int option frame" where
  "pivot_table col df =
     (let idx = sort (remdups (map Year df));
          cols = sort (remdups (map col df))
      in \<lparr>index = idx, columns = cols,
          cells = map (\<lambda>y. map (\<lambda>c. pivot_cell col df y c) cols) idx\<rparr>)"

text \<open>\<^verbatim>\<open>.fillna(0)\<close>\<close>

definition fillna :: "int \<Rightarrow> int option frame \<Rightarrow> int frame" where
  "fillna d t =
     \<lparr>index = index t, columns = columns t,
      cells = map (map (\<lambda>v. case v of None \<Rightarrow> d | Some x \<Rightarrow> x)) (cells t)\<rparr>"

subsection \<open>Year filter and yearly totals (lines 78-86)\<close>

definition year_filtered_df :: "row list \<Rightarrow> int list \<Rightarrow> row list" where
  "year_filtered_df df selected_years = filter (\<lambda>r. Year r \<in> set selected_years) df"

definition yearly_approvals :: "row list \<Rightarrow> int list \<Rightarrow> (int \<times> int) list" where
  "yearly_approvals df selected_years =
     groupby_sum Year Total_Approvals (year_filtered_df df selected_years)"

definition yearly_denials :: "row list \<Rightarrow> int list \<Rightarrow> (int \<times> int) list" where
  "yearly_denials df selected_years =
     groupby_sum Year Total_Denials (year_filtered_df df selected_years)"

subsection \<open>Top industries and the pivot with "Others" (lines 136-155)\<close>

text \<open>The argument \<open>yfd\<close> is the frame already filtered by year; the script uses
  \<open>n = 10\<close>.\<close>

definition top_industries :: "nat \<Rightarrow> row list \<Rightarrow> string list" where
  "top_industries n yfd = map fst (nlargest n (groupby_sum Industry Total_Approvals yfd))"

definition Industry_Category :: "string list \<Rightarrow> row \<Rightarrow> string" where
  "Industry_Category top_n r = (if Industry r \<in> set top_n then Industry r else ''Others'')"

text \<open>\<^verbatim>\<open>frame.loc[label]\<close> and \<^verbatim>\<open>frame[labels]\<close>: a lookup by label raises KeyError when
  the label is absent.\<close>

definition loc :: "'a frame \<Rightarrow> int \<Rightarrow> error + (string \<times> 'a) list" where
  "loc t y =
     (case map_of (zip (index t) (cells t)) y of
        None \<Rightarrow> Inl KeyError
      | Some vs \<Rightarrow> Inr (zip (columns t) vs))"

definition select_columns :: "string list \<Rightarrow> 'a frame \<Rightarrow> error + 'a frame" where
  "select_columns labels t =
     (if set labels \<subseteq> set (columns t)
      then Inr \<lparr>index = index t, columns = labels,
                cells = map (\<lambda>vs. map (\<lambda>c. the (map_of (zip (columns t) vs) c)) labels) (cells t)\<rparr>
      else Inl KeyError)"

text \<open>Lines 153-155: \<^verbatim>\<open>first_year = industry_yearly.index[0]\<close> raises IndexError on a
  frame without rows.\<close>

definition sort_columns_by_first_year :: "int frame \<Rightarrow> error + int frame" where
  "sort_columns_by_first_year t =
     (case index t of
        [] \<Rightarrow> Inl IndexError
      | first_year # _ \<Rightarrow>
          (case loc t first_year of
             Inl e \<Rightarrow> Inl e
           | Inr first_row \<Rightarrow> select_columns (map fst (sort_values_desc first_row)) t))"

definition industry_yearly :: "nat \<Rightarrow> row list \<Rightarrow> error + int frame" where
  "industry_yearly n yfd =
     sort_columns_by_first_year
       (fillna 0 (pivot_table (Industry_Category (top_industries n yfd)) yfd))"

subsection \<open>Watch-list frame, its pivot and the top companies (lines 205-256)\<close>

definition supply_chain_df :: "string list \<Rightarrow> row list \<Rightarrow> row list" where
  "supply_chain_df target_industries yfd = filter (\<lambda>r. Industry r \<in> set target_industries) yfd"

definition watchlist_pivot :: "string list \<Rightarrow> row list \<Rightarrow> int frame" where
  "watchlist_pivot target_industries yfd =
     fillna 0 (pivot_table Industry (supply_chain_df target_industries yfd))"

definition top_companies :: "nat \<Rightarrow> string \<Rightarrow> row list \<Rightarrow> (string \<times> int) list" where
  "top_companies k industry scdf =
     nlargest k (groupby_sum Employer_Name Total_Approvals
                   (filter (\<lambda>r. Industry r = industry) scdf))"

subsection \<open>The raw-data filter (lines 296-308)\<close>

text \<open>\<^verbatim>\<open>str.contains(search_company, case=False, na=False)\<close> compiles its pattern as a
  regular expression. The regular-expression engine is a library outside the script and
  is a parameter here: \<open>re_compile pat\<close> is \<open>None\<close> when the pattern is rejected, and
  otherwise the case-insensitive search of the compiled pattern in a string.\<close>

definition filtered_df ::
  "(string \<Rightarrow> (string \<Rightarrow> bool) option) \<Rightarrow> string \<Rightarrow> string \<Rightarrow> string list \<Rightarrow> string
     \<Rightarrow> row list \<Rightarrow> error + row list" where
  "filtered_df re_compile selected_state selected_city selected_industry search_company scdf =
     (let f1 = (if selected_state \<noteq> ''All''
                then filter (\<lambda>r. State r = selected_state) scdf else scdf);
          f2 = (if selected_city \<noteq> ''All''
                then filter (\<lambda>r. City r = selected_city) f1 else f1);
          f3 = (if selected_industry \<noteq> []
                then filter (\<lambda>r. Industry r \<in> set selected_industry) f2 else f2)
      in if search_company \<noteq> []
         then (case re_compile search_company of
                 None \<Rightarrow> Inl RegexError
               | Some found \<Rightarrow> Inr (filter (\<lambda>r. found (Employer_Name r)) f3))
         else Inr f3)"

text \<open>An instance of \<open>re_compile\<close> for running the filter on concrete inputs. On a
  pattern of letters, digits and spaces, Python's case-insensitive search is the substring
  test on the lower-cased strings. On any other pattern this instance answers \<open>None\<close>:
  that is what Python does on \<^verbatim>\<open>(\<close>, and a placeholder for the patterns it accepts.\<close>

definition lower :: "string \<Rightarrow> string" where
  "lower s =
     map (\<lambda>c. if CHR ''A'' \<le> c \<and> c \<le> CHR ''Z'' then char_of (of_char c + (32::nat)) else c) s"

fun contains :: "string \<Rightarrow> string \<Rightarrow> bool" where
  "contains pat [] = (pat = [])"
| "contains pat (c # cs) = (take (length pat) (c # cs) = pat \<or> contains pat cs)"

definition is_plain :: "char \<Rightarrow> bool" where
  "is_plain c \<longleftrightarrow>
     (CHR ''a'' \<le> c \<and> c \<le> CHR ''z'') \<or> (CHR ''A'' \<le> c \<and> c \<le> CHR ''Z'')
     \<or> (CHR ''0'' \<le> c \<and> c \<le> CHR ''9'') \<or> c = CHR '' ''"

definition plain_compile :: "string \<Rightarrow> (string \<Rightarrow> bool) option" where
  "plain_compile pat =
     (if list_all is_plain pat then Some (\<lambda>s. contains (lower pat) (lower s)) else None)"

subsection \<open>Sample rows\<close>

text \<open>A row for concrete runs: year, employer, state, industry, initial approvals and
  continuing approvals (the city is empty and the denials are 0).\<close>

definition sample :: "int \<Rightarrow> string \<Rightarrow> string \<Rightarrow> string \<Rightarrow> int \<Rightarrow> int \<Rightarrow> row" where
  "sample y e st i a c =
     \<lparr>Year = y, Employer_Name = e, City = [], State = st, Industry = i,
      Initial_Approval = a, Initial_Denial = 0, Continuing_Approval = c, Continuing_Denial = 0\<rparr>"

section \<open>Properties\<close>

subsection \<open>Year-over-year change\<close>

text \<open>C2. \<open>calculate_yoy_change\<close> returns 0 when the previous value is 0, and
  ((current - previous) / previous) * 100 otherwise; on (100, 0) it is 0, on (150, 100)
  it is 50 and on (50, 100) it is -50.\<close>

theorem yoy_change_formula:
  "calculate_yoy_change c 0 = 0
   \<and> (p \<noteq> 0 \<longrightarrow> calculate_yoy_change c p = ((real_of_int c - real_of_int p) / real_of_int p) * 100)
   \<and> calculate_yoy_change 100 0 = 0
   \<and> calculate_yoy_change 150 100 = 50
   \<and> calculate_yoy_change 50 100 = - 50"
  by (simp add: calculate_yoy_change_def)

theorem yoy_change_formula_witness:
  "(4::int) \<noteq> 0 \<and> calculate_yoy_change 5 4 = 25"
  using yoy_change_formula [of 5 4] by simp

subsection \<open>Group-by sums partition the total\<close>

lemma sum_filter_partition:
  assumes "finite K" and "key ` set df \<subseteq> K"
  shows "(\<Sum>k\<in>K. sum_list (map val (filter (\<lambda>r. key r = k) df))) = (sum_list (map val df) :: int)"
  using assms(2)
proof (induction df)
  case Nil
  show ?case by simp
next
  case (Cons r df)
  have "(\<Sum>k\<in>K. sum_list (map val (filter (\<lambda>r. key r = k) (r # df))))
      = (\<Sum>k\<in>K. (if key r = k then val r else 0) + sum_list (map val (filter (\<lambda>r. key r = k) df)))"
    by (intro sum.cong) auto
  also have "\<dots> = (\<Sum>k\<in>K. if key r = k then val r else 0)
                 + (\<Sum>k\<in>K. sum_list (map val (filter (\<lambda>r. key r = k) df)))"
    by (simp add: sum.distrib)
  also have "(\<Sum>k\<in>K. if key r = k then val r else 0) = val r"
    using Cons.prems assms(1) by (simp add: sum.delta')
  also have "(\<Sum>k\<in>K. sum_list (map val (filter (\<lambda>r. key r = k) df))) = sum_list (map val df)"
    using Cons by simp
  finally show ?case by simp
qed

lemma sum_list_groups:
  assumes "distinct ks" and "key ` set df \<subseteq> set ks"
  shows "sum_list (map (\<lambda>k. sum_list (map val (filter (\<lambda>r. key r = k) df))) ks)
         = (sum_list (map val df) :: int)"
  using assms sum_filter_partition [of "set ks" key df val]
  by (simp add: sum_list_distinct_conv_sum_set)

lemma groupby_sum_keys: "map fst (groupby_sum key val df) = sort (remdups (map key df))"
  by (simp add: groupby_sum_def comp_def)

lemma groupby_sum_total: "sum_list (map snd (groupby_sum key val df)) = sum_list (map val df)"
  by (simp add: groupby_sum_def comp_def sum_list_groups)

text \<open>C1. The approvals of \<open>yearly_approvals\<close>, summed over its years, are the sum of
  Total_Approvals over exactly the rows whose Year is selected; likewise for
  \<open>yearly_denials\<close> and Total_Denials. (It holds for the empty frame too.)\<close>

theorem yearly_totals_sum:
  "sum_list (map snd (yearly_approvals df selected_years))
     = sum_list (map Total_Approvals (filter (\<lambda>r. Year r \<in> set selected_years) df))
   \<and> sum_list (map snd (yearly_denials df selected_years))
     = sum_list (map Total_Denials (filter (\<lambda>r. Year r \<in> set selected_years) df))"
  by (simp add: yearly_approvals_def yearly_denials_def year_filtered_df_def groupby_sum_total)

subsection \<open>The pivot and its column sort\<close>

lemma fill_pivot_cell:
  "(case pivot_cell col df y c of None \<Rightarrow> 0 | Some x \<Rightarrow> x)
     = sum_list (map Total_Approvals (filter (\<lambda>r. Year r = y \<and> col r = c) df))"
  by (simp add: pivot_cell_def Let_def)

lemma fillna_pivot_table:
  "fillna 0 (pivot_table col df) =
     \<lparr>index = sort (remdups (map Year df)),
      columns = sort (remdups (map col df)),
      cells = map (\<lambda>y. map (\<lambda>c. sum_list (map Total_Approvals (filter (\<lambda>r. Year r = y \<and> col r = c) df)))
                           (sort (remdups (map col df))))
                  (sort (remdups (map Year df)))\<rparr>"
  by (simp add: fillna_def pivot_table_def Let_def comp_def fill_pivot_cell)

lemma row_sum_over_columns:
  assumes "distinct cs" and "col ` set df \<subseteq> set cs"
  shows "sum_list (map (\<lambda>c. sum_list (map Total_Approvals (filter (\<lambda>r. Year r = y \<and> col r = c) df))) cs)
         = sum_list (map Total_Approvals (filter (\<lambda>r. Year r = y) df))"
proof -
  have "col ` set (filter (\<lambda>r. Year r = y) df) \<subseteq> set cs"
    using assms(2) by auto
  from sum_list_groups [OF assms(1) this, of Total_Approvals]
  show ?thesis by (simp add: conj_commute)
qed

lemma zip_map_same: "zip xs (map g xs) = map (\<lambda>x. (x, g x)) xs"
  by (induction xs) auto

lemma sort_values_desc_mset: "mset (sort_values_desc s) = mset s"
  by (simp add: sort_values_desc_def)

lemma sort_values_desc_set: "set (sort_values_desc s) = set s"
  by (simp add: sort_values_desc_def)

lemma sort_values_desc_length: "length (sort_values_desc s) = length s"
  by (simp add: sort_values_desc_def)

lemma sort_values_desc_sorted: "sorted_wrt (\<lambda>a b. b \<le> a) (map snd (sort_values_desc s))"
proof -
  have "sorted (map (\<lambda>kv. - snd kv) (sort_values_desc s))"
    by (simp add: sort_values_desc_def)
  then show ?thesis
    by (simp add: sorted_wrt_map)
qed

lemma sort_values_desc_fst_mset: "mset (map fst (sort_values_desc s)) = mset (map fst s)"
  by (metis mset_map sort_values_desc_mset)

lemma sort_values_desc_graph:
  "map snd (sort_values_desc (map (\<lambda>x. (x, g x)) xs)) = map g (map fst (sort_values_desc (map (\<lambda>x. (x, g x)) xs)))"
  by (auto simp: sort_values_desc_set)

lemma sort_columns_by_first_year_pivot:
  fixes f :: "int \<Rightarrow> string \<Rightarrow> int"
  defines "perm y0 cs \<equiv> map fst (sort_values_desc (zip cs (map (f y0) cs)))"
  shows "sort_columns_by_first_year
           \<lparr>index = y0 # ys, columns = cs, cells = map (\<lambda>y. map (f y) cs) (y0 # ys)\<rparr>
         = Inr \<lparr>index = y0 # ys, columns = perm y0 cs,
                cells = map (\<lambda>y. map (f y) (perm y0 cs)) (y0 # ys)\<rparr>"
proof -
  have sub: "set (perm y0 cs) \<subseteq> set cs"
    by (auto simp: perm_def sort_values_desc_set zip_map_same)
  have look: "the (map_of (zip cs (map (f y) cs)) c) = f y c" if "c \<in> set (perm y0 cs)" for y c
    using that sub by (auto simp: map_of_zip_map)
  show ?thesis
    using sub by (simp add: sort_columns_by_first_year_def loc_def select_columns_def look perm_def [symmetric])
qed


lemma industry_yearly_Nil: "industry_yearly n [] = Inl IndexError"
  by (simp add: industry_yearly_def fillna_pivot_table sort_columns_by_first_year_def)

lemma sort_remdups_nonempty: "xs \<noteq> [] \<Longrightarrow> sort (remdups xs) \<noteq> []"
  by (metis length_0_conv length_sort remdups_eq_nil_iff)

lemma industry_yearly_shape:
  assumes "yfd \<noteq> []"
  shows "\<exists>cs. distinct cs
            \<and> set cs = Industry_Category (top_industries n yfd) ` set yfd
            \<and> sorted_wrt (\<lambda>a b. b \<le> a)
                 (map (\<lambda>c. sum_list (map Total_Approvals
                         (filter (\<lambda>r. Year r = hd (sort (remdups (map Year yfd)))
                                       \<and> Industry_Category (top_industries n yfd) r = c) yfd))) cs)
            \<and> industry_yearly n yfd =
                Inr \<lparr>index = sort (remdups (map Year yfd)), columns = cs,
                     cells = map (\<lambda>y. map (\<lambda>c. sum_list (map Total_Approvals
                                (filter (\<lambda>r. Year r = y
                                       \<and> Industry_Category (top_industries n yfd) r = c) yfd))) cs)
                                 (sort (remdups (map Year yfd)))\<rparr>"
proof -
  define cat where "cat = Industry_Category (top_industries n yfd)"
  define f where "f = (\<lambda>y c. sum_list (map Total_Approvals (filter (\<lambda>r. Year r = y \<and> cat r = c) yfd)))"
  define cols where "cols = sort (remdups (map cat yfd))"
  obtain y0 ys where idx: "sort (remdups (map Year yfd)) = y0 # ys"
    using sort_remdups_nonempty [of "map Year yfd"] assms by (cases "sort (remdups (map Year yfd))") auto
  define srt where "srt = sort_values_desc (zip cols (map (f y0) cols))"
  define cs where "cs = map fst srt"
  have "mset cs = mset (map fst (zip cols (map (f y0) cols)))"
    unfolding cs_def srt_def by (rule sort_values_desc_fst_mset)
  also have "map fst (zip cols (map (f y0) cols)) = cols"
    by (simp add: zip_map_same comp_def)
  finally have m: "mset cs = mset cols" .
  have d: "distinct cs"
    using m by (metis cols_def distinct_remdups distinct_sort mset_eq_imp_distinct_iff)
  have s: "set cs = cat ` set yfd"
    using m by (metis cols_def mset_eq_setD set_map set_remdups set_sort)
  have "map (f y0) cs = map snd srt"
    unfolding cs_def srt_def zip_map_same by (simp add: sort_values_desc_graph)
  then have o: "sorted_wrt (\<lambda>a b. b \<le> a) (map (f y0) cs)"
    by (simp add: srt_def sort_values_desc_sorted)
  have "industry_yearly n yfd
        = sort_columns_by_first_year \<lparr>index = y0 # ys, columns = cols,
             cells = map (\<lambda>y. map (f y) cols) (y0 # ys)\<rparr>"
    by (simp add: industry_yearly_def fillna_pivot_table idx cat_def [symmetric] cols_def f_def)
  also have "\<dots> = Inr \<lparr>index = y0 # ys, columns = cs, cells = map (\<lambda>y. map (f y) cs) (y0 # ys)\<rparr>"
    by (simp only: sort_columns_by_first_year_pivot cs_def srt_def)
  finally have e: "industry_yearly n yfd
        = Inr \<lparr>index = y0 # ys, columns = cs, cells = map (\<lambda>y. map (f y) cs) (y0 # ys)\<rparr>" .
  show ?thesis
    apply (rule exI [of _ cs])
    using d s o e by (simp add: idx cat_def f_def)
qed

lemma top_industries_facts:
  "distinct (top_industries n yfd)
   \<and> set (top_industries n yfd) \<subseteq> Industry ` set yfd
   \<and> length (top_industries n yfd) = min n (card (Industry ` set yfd))"
proof -
  define g where "g = groupby_sum Industry Total_Approvals yfd"
  define ks where "ks = map fst (sort_values_desc g)"
  have "mset ks = mset (map fst g)"
    unfolding ks_def by (rule sort_values_desc_fst_mset)
  also have "map fst g = sort (remdups (map Industry yfd))"
    unfolding g_def by (rule groupby_sum_keys)
  finally have m: "mset ks = mset (sort (remdups (map Industry yfd)))" .
  have d: "distinct ks"
    using m by (metis distinct_remdups distinct_sort mset_eq_imp_distinct_iff)
  have s: "set ks = Industry ` set yfd"
    using m by (metis mset_eq_setD set_map set_remdups set_sort)
  have l: "length ks = card (Industry ` set yfd)"
    using d s by (metis distinct_card)
  have t: "top_industries n yfd = take n ks"
    by (simp add: top_industries_def nlargest_def ks_def g_def take_map)
  show ?thesis
    using d s l set_take_subset [of n ks] by (auto simp: t)
qed



lemma category_count:
  "card (Industry_Category (top_industries n yfd) ` set yfd) \<le> n + 1"
proof -
  let ?T = "set (top_industries n yfd)"
  have "Industry_Category (top_industries n yfd) ` set yfd \<subseteq> insert ''Others'' ?T"
    by (auto simp: Industry_Category_def)
  then have "card (Industry_Category (top_industries n yfd) ` set yfd) \<le> card (insert ''Others'' ?T)"
    by (simp add: card_mono)
  also have "\<dots> \<le> card ?T + 1"
    by (simp add: card_insert_if)
  also have "card ?T \<le> n"
    using top_industries_facts [of n yfd] by (simp add: distinct_card)
  finally show ?thesis by simp
qed


lemma sorted_hd_Min: "sorted xs \<Longrightarrow> xs \<noteq> [] \<Longrightarrow> hd xs = Min (set xs)"
  by (cases xs) (auto intro!: Min_eqI [symmetric])

text \<open>C3. Whenever \<open>industry_yearly\<close> produces a frame (it does for every non-empty
  record set), the frame has at most n+1 distinct columns, a row for each year of the
  record set, and in each year's row the cells add up to that year's total approvals
  over all rows of the record set.\<close>

theorem top_industries_pivot_rows:
  "(yfd \<noteq> [] \<longrightarrow> (\<exists>t. industry_yearly n yfd = Inr t))
   \<and> (\<forall>t. industry_yearly n yfd = Inr t \<longrightarrow>
          distinct (columns t) \<and> length (columns t) \<le> n + 1
        \<and> set (index t) = Year ` set yfd \<and> length (cells t) = length (index t)
        \<and> (\<forall>i < length (index t).
              sum_list (cells t ! i)
                = sum_list (map Total_Approvals (filter (\<lambda>r. Year r = index t ! i) yfd))))"
proof (cases "yfd = []")
  case True
  then show ?thesis by (simp add: industry_yearly_Nil)
next
  case False
  from industry_yearly_shape [OF False, of n] obtain cs where
    d: "distinct cs" and s: "set cs = Industry_Category (top_industries n yfd) ` set yfd"
    and e: "industry_yearly n yfd =
                Inr \<lparr>index = sort (remdups (map Year yfd)), columns = cs,
                     cells = map (\<lambda>y. map (\<lambda>c. sum_list (map Total_Approvals
                                (filter (\<lambda>r. Year r = y
                                       \<and> Industry_Category (top_industries n yfd) r = c) yfd))) cs)
                                 (sort (remdups (map Year yfd)))\<rparr>"
    by blast
  have l: "length cs \<le> n + 1"
    using category_count [of n yfd] d s by (metis distinct_card)
  have r: "sum_list (map (\<lambda>c. sum_list (map Total_Approvals
                (filter (\<lambda>r. Year r = y \<and> Industry_Category (top_industries n yfd) r = c) yfd))) cs)
           = sum_list (map Total_Approvals (filter (\<lambda>r. Year r = y) yfd))" for y
    using row_sum_over_columns [OF d, of "Industry_Category (top_industries n yfd)" yfd y] s by simp
  show ?thesis
    using d l r by (simp add: e)
qed


theorem top_industries_pivot_rows_witness:
  "industry_yearly 1
     [sample 2021 ''Acme'' ''CA'' ''A'' 10 0, sample 2021 ''Beta'' ''NY'' ''A'' 15 5,
      sample 2022 ''Beta'' ''NY'' ''B'' 7 5]
     = Inr \<lparr>index = [2021, 2022], columns = [''A'', ''Others''], cells = [[30, 0], [0, 12]]\<rparr>
   \<and> length [''A'', ''Others''] \<le> (1::nat) + 1
   \<and> sum_list [0, 12 :: int]
       = sum_list (map Total_Approvals (filter (\<lambda>r. Year r = 2022)
     [sample 2021 ''Acme'' ''CA'' ''A'' 10 0, sample 2021 ''Beta'' ''NY'' ''A'' 15 5,
      sample 2022 ''Beta'' ''NY'' ''B'' 7 5]))"
proof -
  have e: "industry_yearly 1
     [sample 2021 ''Acme'' ''CA'' ''A'' 10 0, sample 2021 ''Beta'' ''NY'' ''A'' 15 5,
      sample 2022 ''Beta'' ''NY'' ''B'' 7 5]
     = Inr \<lparr>index = [2021, 2022], columns = [''A'', ''Others''], cells = [[30, 0], [0, 12]]\<rparr>"
    by code_simp
  from top_industries_pivot_rows [of
     "[sample 2021 ''Acme'' ''CA'' ''A'' 10 0, sample 2021 ''Beta'' ''NY'' ''A'' 15 5,
      sample 2022 ''Beta'' ''NY'' ''B'' 7 5]" 1] e
  show ?thesis by (simp add: sample_def Total_Approvals_def)
qed

text \<open>C8. For a non-empty record set \<open>industry_yearly\<close> produces a frame whose first row
  is the earliest year and lists its values in descending order; every row has one cell
  per column, and cell j of each row is the value of column j, so the column order of the
  first row is the column order of every row.\<close>

theorem columns_sorted_by_first_year:
  "yfd \<noteq> [] \<Longrightarrow>
   \<exists>t. industry_yearly n yfd = Inr t
     \<and> index t \<noteq> [] \<and> hd (index t) = Min (Year ` set yfd)
     \<and> sorted_wrt (\<lambda>a b. b \<le> a) (hd (cells t))
     \<and> length (cells t) = length (index t)
     \<and> (\<forall>i < length (index t). length (cells t ! i) = length (columns t)
          \<and> (\<forall>j < length (columns t).
                cells t ! i ! j
                  = sum_list (map Total_Approvals
                      (filter (\<lambda>r. Year r = index t ! i
                           \<and> Industry_Category (top_industries n yfd) r = columns t ! j) yfd))))"
proof -
  assume ne: "yfd \<noteq> []"
  let ?idx = "sort (remdups (map Year yfd))"
  from industry_yearly_shape [OF ne, of n] obtain cs where
    o: "sorted_wrt (\<lambda>a b. b \<le> a)
                 (map (\<lambda>c. sum_list (map Total_Approvals
                         (filter (\<lambda>r. Year r = hd ?idx
                                       \<and> Industry_Category (top_industries n yfd) r = c) yfd))) cs)"
    and e: "industry_yearly n yfd =
                Inr \<lparr>index = ?idx, columns = cs,
                     cells = map (\<lambda>y. map (\<lambda>c. sum_list (map Total_Approvals
                                (filter (\<lambda>r. Year r = y
                                       \<and> Industry_Category (top_industries n yfd) r = c) yfd))) cs)
                                 ?idx\<rparr>"
    by blast
  have i: "?idx \<noteq> []"
    using ne by (simp add: sort_remdups_nonempty)
  have h: "hd ?idx = Min (Year ` set yfd)"
    using sorted_hd_Min [OF _ i] by simp
  show ?thesis
    using i h o by (simp add: e hd_map)
qed


theorem columns_sorted_by_first_year_witness:
  "[sample 2021 ''Acme'' ''CA'' ''A'' 10 0, sample 2021 ''Beta'' ''NY'' ''A'' 15 5,
      sample 2022 ''Beta'' ''NY'' ''B'' 7 5] \<noteq> []
   \<and> industry_yearly 1
     [sample 2021 ''Acme'' ''CA'' ''A'' 10 0, sample 2021 ''Beta'' ''NY'' ''A'' 15 5,
      sample 2022 ''Beta'' ''NY'' ''B'' 7 5]
     = Inr \<lparr>index = [2021, 2022], columns = [''A'', ''Others''], cells = [[30, 0], [0, 12]]\<rparr>
   \<and> sorted_wrt (\<lambda>a b. b \<le> a) [30, 0 :: int]"
proof -
  have e: "industry_yearly 1
     [sample 2021 ''Acme'' ''CA'' ''A'' 10 0, sample 2021 ''Beta'' ''NY'' ''A'' 15 5,
      sample 2022 ''Beta'' ''NY'' ''B'' 7 5]
     = Inr \<lparr>index = [2021, 2022], columns = [''A'', ''Others''], cells = [[30, 0], [0, 12]]\<rparr>"
    by code_simp
  from columns_sorted_by_first_year [of
     "[sample 2021 ''Acme'' ''CA'' ''A'' 10 0, sample 2021 ''Beta'' ''NY'' ''A'' 15 5,
      sample 2022 ''Beta'' ''NY'' ''B'' 7 5]" 1] e
  show ?thesis by (simp add: sample_def Total_Approvals_def)
qed





text \<open>C4. With no year selected the year-filtered frame is empty, and lines 145-153 raise
  IndexError at \<^verbatim>\<open>industry_yearly.index[0]\<close> instead of producing a pivot.\<close>

theorem industry_yearly_empty_selection:
  "year_filtered_df [sample 2021 ''Acme'' ''CA'' ''A'' 5 0] [] = []
   \<and> industry_yearly 10 (year_filtered_df [sample 2021 ''Acme'' ''CA'' ''A'' 5 0] []) = Inl IndexError"
  by (simp add: year_filtered_df_def industry_yearly_Nil)

subsection \<open>Top companies of an industry\<close>

lemma nlargest_length: "length (nlargest n s) = min n (length s)"
  by (simp add: nlargest_def sort_values_desc_length min.commute)

lemma nlargest_subset: "set (nlargest n s) \<subseteq> set s"
  using set_take_subset [of n "sort_values_desc s"] by (simp add: nlargest_def sort_values_desc_set)

lemma sort_values_desc_sorted_pairs: "sorted_wrt (\<lambda>a b. snd b \<le> snd a) (sort_values_desc s)"
  using sort_values_desc_sorted [of s] by (simp add: sorted_wrt_map)

lemma nlargest_sorted: "sorted_wrt (\<lambda>a b. snd b \<le> snd a) (nlargest n s)"
  unfolding nlargest_def by (rule sorted_wrt_take [OF sort_values_desc_sorted_pairs])

lemma nlargest_distinct_keys:
  assumes "distinct (map fst s)"
  shows "distinct (map fst (nlargest n s))"
proof -
  have "distinct (map fst (sort_values_desc s))"
    using assms sort_values_desc_fst_mset [of s] by (metis mset_eq_imp_distinct_iff)
  then show ?thesis
    by (simp add: nlargest_def take_map [symmetric] distinct_take)
qed

lemma nlargest_dominates:
  assumes "x \<in> set s" and "x \<notin> set (nlargest n s)" and "y \<in> set (nlargest n s)"
  shows "snd x \<le> snd y"
proof -
  let ?srt = "sort_values_desc s"
  have "set ?srt = set (take n ?srt) \<union> set (drop n ?srt)"
    by (metis append_take_drop_id set_append)
  then have xd: "x \<in> set (drop n ?srt)"
    using assms(1,2) by (auto simp: nlargest_def sort_values_desc_set)
  have "sorted_wrt (\<lambda>a b. snd b \<le> snd a) (take n ?srt @ drop n ?srt)"
    by (simp add: sort_values_desc_sorted_pairs)
  then show ?thesis
    using xd assms(3) unfolding sorted_wrt_append nlargest_def by blast
qed

lemma groupby_sum_set:
  "set (groupby_sum key val df)
     = (\<lambda>k. (k, sum_list (map val (filter (\<lambda>r. key r = k) df)))) ` key ` set df"
  by (simp add: groupby_sum_def)

lemma groupby_sum_length: "length (groupby_sum key val df) = card (key ` set df)"
proof -
  have "length (groupby_sum key val df) = length (remdups (map key df))"
    by (simp add: groupby_sum_def)
  also have "\<dots> = card (set (map key df))"
    by (simp add: length_remdups_card_conv)
  finally show ?thesis by simp
qed

lemma groupby_sum_distinct_keys: "distinct (map fst (groupby_sum key val df))"
  by (simp add: groupby_sum_keys)

text \<open>C5. \<open>top_companies k X\<close> lists min(k, number of employers of industry X) entries,
  so at most k; the employers are pairwise different; each entry carries the employer's
  summed Total_Approvals within industry X; the sums are in descending order; and every
  employer of industry X that is left out has a sum no larger than that of any listed
  entry, so the listed employers are k (or fewer) highest-summing ones. Which of several
  employers with equal sums is listed is left open.\<close>

theorem top_companies_ranked:
  "length (top_companies k X scdf)
     = min k (card (Employer_Name ` {r \<in> set scdf. Industry r = X}))
   \<and> distinct (map fst (top_companies k X scdf))
   \<and> sorted_wrt (\<lambda>a b. snd b \<le> snd a) (top_companies k X scdf)
   \<and> (\<forall>(e, s) \<in> set (top_companies k X scdf).
         (\<exists>r \<in> set scdf. Industry r = X \<and> Employer_Name r = e)
       \<and> s = sum_list (map Total_Approvals
                 (filter (\<lambda>r. Industry r = X \<and> Employer_Name r = e) scdf)))
   \<and> (\<forall>r \<in> set scdf. Industry r = X \<longrightarrow> Employer_Name r \<notin> fst ` set (top_companies k X scdf) \<longrightarrow>
         (\<forall>(e, s) \<in> set (top_companies k X scdf).
            sum_list (map Total_Approvals
              (filter (\<lambda>r'. Industry r' = X \<and> Employer_Name r' = Employer_Name r) scdf)) \<le> s))"
proof -
  define df where "df = filter (\<lambda>r. Industry r = X) scdf"
  define g where "g = groupby_sum Employer_Name Total_Approvals df"
  define tot where "tot = (\<lambda>e. sum_list (map Total_Approvals
                 (filter (\<lambda>r. Industry r = X \<and> Employer_Name r = e) scdf)))"
  have tc: "top_companies k X scdf = nlargest k g"
    by (simp add: top_companies_def g_def df_def)
  have sdf: "set df = {r \<in> set scdf. Industry r = X}"
    by (simp add: df_def)
  have gs: "set g = (\<lambda>e. (e, tot e)) ` Employer_Name ` set df"
    by (simp add: g_def groupby_sum_set tot_def df_def)
  have 1: "length (nlargest k g) = min k (card (Employer_Name ` {r \<in> set scdf. Industry r = X}))"
    by (simp add: nlargest_length g_def groupby_sum_length sdf)
  have 2: "distinct (map fst (nlargest k g))"
    unfolding g_def by (rule nlargest_distinct_keys [OF groupby_sum_distinct_keys])
  have 3: "sorted_wrt (\<lambda>a b. snd b \<le> snd a) (nlargest k g)"
    by (rule nlargest_sorted)
  have 4: "(\<exists>r \<in> set scdf. Industry r = X \<and> Employer_Name r = e) \<and> s = tot e"
    if "(e, s) \<in> set (nlargest k g)" for e s
  proof -
    from that nlargest_subset [of k g] have "(e, s) \<in> set g" by blast
    then show ?thesis unfolding gs sdf by auto
  qed
  have 5: "tot (Employer_Name r) \<le> s"
    if "r \<in> set scdf" "Industry r = X" "Employer_Name r \<notin> fst ` set (nlargest k g)"
       "(e, s) \<in> set (nlargest k g)" for r e s
  proof -
    have "(Employer_Name r, tot (Employer_Name r)) \<in> set g"
      unfolding gs sdf using that(1,2) by blast
    moreover have "(Employer_Name r, tot (Employer_Name r)) \<notin> set (nlargest k g)"
      using that(3) by force
    ultimately show ?thesis
      using nlargest_dominates [of _ g k "(e, s)"] that(4) by fastforce
  qed
  show ?thesis
    unfolding tc using 1 2 3 4 5 unfolding tot_def by blast
qed

theorem top_companies_ranked_witness:
  "top_companies 2 ''A''
     [sample 2021 ''Acme'' ''CA'' ''A'' 10 0, sample 2021 ''Beta'' ''NY'' ''A'' 15 5,
      sample 2022 ''Gamma'' ''CA'' ''A'' 3 0, sample 2022 ''Delta'' ''TX'' ''B'' 100 0]
     = [(''Beta'', 20), (''Acme'', 10)]
   \<and> sum_list (map Total_Approvals (filter (\<lambda>r. Industry r = ''A'' \<and> Employer_Name r = ''Gamma'')
     [sample 2021 ''Acme'' ''CA'' ''A'' 10 0, sample 2021 ''Beta'' ''NY'' ''A'' 15 5,
      sample 2022 ''Gamma'' ''CA'' ''A'' 3 0, sample 2022 ''Delta'' ''TX'' ''B'' 100 0])) \<le> 10"
proof -
  have e: "top_companies 2 ''A''
     [sample 2021 ''Acme'' ''CA'' ''A'' 10 0, sample 2021 ''Beta'' ''NY'' ''A'' 15 5,
      sample 2022 ''Gamma'' ''CA'' ''A'' 3 0, sample 2022 ''Delta'' ''TX'' ''B'' 100 0]
     = [(''Beta'', 20), (''Acme'', 10)]"
    by code_simp
  from top_companies_ranked [of 2 "''A''"
     "[sample 2021 ''Acme'' ''CA'' ''A'' 10 0, sample 2021 ''Beta'' ''NY'' ''A'' 15 5,
      sample 2022 ''Gamma'' ''CA'' ''A'' 3 0, sample 2022 ''Delta'' ''TX'' ''B'' 100 0]"] e
  show ?thesis by (simp add: sample_def Total_Approvals_def)
qed

subsection \<open>Watch-list pivot\<close>

text \<open>C6. \<open>watchlist_pivot\<close> has a row for each year and a column for each industry
  that occur among the rows whose Industry is in the watch-list, and no other column; the
  cell of a year and an industry is the sum of Total_Approvals over the rows of that year
  and industry whose Industry is in the watch-list, which is 0 when there is no such row.
  For the watch-list ["A"] and two rows of 2021, industry "A", with approvals 10 and 20,
  the result is the single cell 30.\<close>

theorem watchlist_pivot_sums:
  "(let t = watchlist_pivot wl yfd in
      set (index t) = Year ` {r \<in> set yfd. Industry r \<in> set wl}
    \<and> set (columns t) = Industry ` set yfd \<inter> set wl
    \<and> distinct (index t) \<and> distinct (columns t)
    \<and> length (cells t) = length (index t)
    \<and> (\<forall>i < length (index t). length (cells t ! i) = length (columns t)
         \<and> (\<forall>j < length (columns t).
               cells t ! i ! j
                 = sum_list (map Total_Approvals
                     (filter (\<lambda>r. Industry r \<in> set wl \<and> Year r = index t ! i
                                    \<and> Industry r = columns t ! j) yfd)))))
   \<and> watchlist_pivot [''A'']
       [sample 2021 ''Acme'' ''CA'' ''A'' 10 0, sample 2021 ''Beta'' ''NY'' ''A'' 20 0]
       = \<lparr>index = [2021], columns = [''A''], cells = [[30]]\<rparr>"
proof -
  have 1: "watchlist_pivot [''A'']
       [sample 2021 ''Acme'' ''CA'' ''A'' 10 0, sample 2021 ''Beta'' ''NY'' ''A'' 20 0]
       = \<lparr>index = [2021], columns = [''A''], cells = [[30]]\<rparr>"
    by code_simp
  have 2: "{r \<in> set yfd. Industry r \<in> set wl} = set (supply_chain_df wl yfd)"
    by (auto simp: supply_chain_df_def)
  have 3: "Industry ` set yfd \<inter> set wl = Industry ` set (supply_chain_df wl yfd)"
    by (auto simp: supply_chain_df_def)
  have 4: "filter (\<lambda>r. Industry r \<in> set wl \<and> Year r = y \<and> Industry r = c) yfd
         = filter (\<lambda>r. Year r = y \<and> Industry r = c) (supply_chain_df wl yfd)" for y c
    by (simp add: supply_chain_df_def)
  have 5: "(let t = watchlist_pivot wl yfd in
      set (index t) = Year ` {r \<in> set yfd. Industry r \<in> set wl}
    \<and> set (columns t) = Industry ` set yfd \<inter> set wl
    \<and> distinct (index t) \<and> distinct (columns t)
    \<and> length (cells t) = length (index t)
    \<and> (\<forall>i < length (index t). length (cells t ! i) = length (columns t)
         \<and> (\<forall>j < length (columns t).
               cells t ! i ! j
                 = sum_list (map Total_Approvals
                     (filter (\<lambda>r. Industry r \<in> set wl \<and> Year r = index t ! i
                                    \<and> Industry r = columns t ! j) yfd)))))"
    unfolding 2 3 4 Let_def watchlist_pivot_def fillna_pivot_table by simp
  from 5 1 show ?thesis by (rule conjI)
qed


theorem watchlist_pivot_sums_witness:
  "watchlist_pivot [''A'', ''B'', ''Z'']
     [sample 2021 ''Acme'' ''CA'' ''A'' 10 0, sample 2022 ''Beta'' ''NY'' ''B'' 7 5,
      sample 2021 ''Gamma'' ''CA'' ''C'' 4 0]
     = \<lparr>index = [2021, 2022], columns = [''A'', ''B''], cells = [[10, 0], [0, 12]]\<rparr>
   \<and> (0::int) = sum_list (map Total_Approvals
         (filter (\<lambda>r. Industry r \<in> set [''A'', ''B'', ''Z''] \<and> Year r = 2021 \<and> Industry r = ''B'')
     [sample 2021 ''Acme'' ''CA'' ''A'' 10 0, sample 2022 ''Beta'' ''NY'' ''B'' 7 5,
      sample 2021 ''Gamma'' ''CA'' ''C'' 4 0]))"
proof -
  have e: "watchlist_pivot [''A'', ''B'', ''Z'']
     [sample 2021 ''Acme'' ''CA'' ''A'' 10 0, sample 2022 ''Beta'' ''NY'' ''B'' 7 5,
      sample 2021 ''Gamma'' ''CA'' ''C'' 4 0]
     = \<lparr>index = [2021, 2022], columns = [''A'', ''B''], cells = [[10, 0], [0, 12]]\<rparr>"
    by code_simp
  from watchlist_pivot_sums [of "[''A'', ''B'', ''Z'']"
     "[sample 2021 ''Acme'' ''CA'' ''A'' 10 0, sample 2022 ''Beta'' ''NY'' ''B'' 7 5,
      sample 2021 ''Gamma'' ''CA'' ''C'' 4 0]"] e
  show ?thesis by (simp add: sample_def Total_Approvals_def)
qed

subsection \<open>Raw-data filter\<close>

text \<open>C7. Filtering a result of \<open>filtered_df\<close> again with the same state, city,
  industries and search text gives the same rows.\<close>

theorem filtered_df_idempotent:
  "filtered_df re_compile selected_state selected_city selected_industry search_company scdf = Inr out
   \<Longrightarrow> filtered_df re_compile selected_state selected_city selected_industry search_company out = Inr out"
  by (auto simp: filtered_df_def Let_def filter_id_conv split: if_splits option.splits)

theorem filtered_df_idempotent_witness:
  "filtered_df plain_compile ''CA'' ''All'' [''A''] ''acme''
     [sample 2021 ''Acme'' ''CA'' ''A'' 10 0, sample 2021 ''Beta'' ''NY'' ''A'' 15 5,
      sample 2022 ''Gamma'' ''CA'' ''A'' 3 0, sample 2022 ''Delta'' ''TX'' ''B'' 100 0]
     = Inr [sample 2021 ''Acme'' ''CA'' ''A'' 10 0]
   \<and> filtered_df plain_compile ''CA'' ''All'' [''A''] ''acme'' [sample 2021 ''Acme'' ''CA'' ''A'' 10 0]
     = Inr [sample 2021 ''Acme'' ''CA'' ''A'' 10 0]"
proof -
  have e: "filtered_df plain_compile ''CA'' ''All'' [''A''] ''acme''
     [sample 2021 ''Acme'' ''CA'' ''A'' 10 0, sample 2021 ''Beta'' ''NY'' ''A'' 15 5,
      sample 2022 ''Gamma'' ''CA'' ''A'' 3 0, sample 2022 ''Delta'' ''TX'' ''B'' 100 0]
     = Inr [sample 2021 ''Acme'' ''CA'' ''A'' 10 0]"
    by code_simp
  from filtered_df_idempotent [OF e] e
  show ?thesis by simp
qed

text \<open>C9. With an empty industry selection \<open>filtered_df\<close> skips the industry
  predicate: the result is the one obtained with every industry of the frame selected,
  and it is decided by the state, city and search predicates alone.\<close>

theorem empty_industry_selection_matches_all:
  "filtered_df re_compile st ci [] search scdf
     = filtered_df re_compile st ci (remdups (map Industry scdf)) search scdf
   \<and> filtered_df re_compile st ci [] search scdf
     = (if search = []
        then Inr (filter (\<lambda>r. (st = ''All'' \<or> State r = st) \<and> (ci = ''All'' \<or> City r = ci)) scdf)
        else case re_compile search of
               None \<Rightarrow> Inl RegexError
             | Some found \<Rightarrow>
                 Inr (filter (\<lambda>r. (st = ''All'' \<or> State r = st) \<and> (ci = ''All'' \<or> City r = ci)
                                \<and> found (Employer_Name r)) scdf))"
proof -
  have a: "filter (\<lambda>r. Industry r \<in> set (remdups (map Industry scdf))) xs = xs"
    if "set xs \<subseteq> set scdf" for xs
    using that by (auto simp: filter_id_conv)
  have 1: "filtered_df re_compile st ci [] search scdf
     = filtered_df re_compile st ci (remdups (map Industry scdf)) search scdf"
  proof (cases "scdf = []")
    case True
    then show ?thesis by (simp add: filtered_df_def)
  next
    case False
    then show ?thesis
      unfolding filtered_df_def Let_def by (auto simp: a split: option.splits intro!: filter_cong)
  qed
  have 2: "filtered_df re_compile st ci [] search scdf
     = (if search = []
        then Inr (filter (\<lambda>r. (st = ''All'' \<or> State r = st) \<and> (ci = ''All'' \<or> City r = ci)) scdf)
        else case re_compile search of
               None \<Rightarrow> Inl RegexError
             | Some found \<Rightarrow>
                 Inr (filter (\<lambda>r. (st = ''All'' \<or> State r = st) \<and> (ci = ''All'' \<or> City r = ci)
                                \<and> found (Employer_Name r)) scdf))"
    by (simp add: filtered_df_def Let_def split: option.splits)
  from 1 2 show ?thesis by (rule conjI)
qed


theorem empty_industry_selection_matches_all_witness:
  "filtered_df plain_compile ''CA'' ''All'' [] ''A''
     [sample 2021 ''Acme'' ''CA'' ''A'' 10 0, sample 2021 ''Beta'' ''NY'' ''A'' 15 5,
      sample 2022 ''Gamma'' ''CA'' ''A'' 3 0, sample 2022 ''Delta'' ''TX'' ''B'' 100 0]
     = Inr [sample 2021 ''Acme'' ''CA'' ''A'' 10 0, sample 2022 ''Gamma'' ''CA'' ''A'' 3 0]
   \<and> filtered_df plain_compile ''CA'' ''All'' [''A'', ''B''] ''A''
     [sample 2021 ''Acme'' ''CA'' ''A'' 10 0, sample 2021 ''Beta'' ''NY'' ''A'' 15 5,
      sample 2022 ''Gamma'' ''CA'' ''A'' 3 0, sample 2022 ''Delta'' ''TX'' ''B'' 100 0]
     = Inr [sample 2021 ''Acme'' ''CA'' ''A'' 10 0, sample 2022 ''Gamma'' ''CA'' ''A'' 3 0]"
proof -
  have e: "filtered_df plain_compile ''CA'' ''All'' [] ''A''
     [sample 2021 ''Acme'' ''CA'' ''A'' 10 0, sample 2021 ''Beta'' ''NY'' ''A'' 15 5,
      sample 2022 ''Gamma'' ''CA'' ''A'' 3 0, sample 2022 ''Delta'' ''TX'' ''B'' 100 0]
     = Inr [sample 2021 ''Acme'' ''CA'' ''A'' 10 0, sample 2022 ''Gamma'' ''CA'' ''A'' 3 0]"
    by code_simp
  have r: "remdups (map Industry
     [sample 2021 ''Acme'' ''CA'' ''A'' 10 0, sample 2021 ''Beta'' ''NY'' ''A'' 15 5,
      sample 2022 ''Gamma'' ''CA'' ''A'' 3 0, sample 2022 ''Delta'' ''TX'' ''B'' 100 0]) = [''A'', ''B'']"
    by (simp add: sample_def)
  from empty_industry_selection_matches_all [of plain_compile "''CA''" "''All''" "''A''"
     "[sample 2021 ''Acme'' ''CA'' ''A'' 10 0, sample 2021 ''Beta'' ''NY'' ''A'' 15 5,
      sample 2022 ''Gamma'' ''CA'' ''A'' 3 0, sample 2022 ''Delta'' ''TX'' ''B'' 100 0]"] e r
  show ?thesis by simp
qed

end
